theory Spec2Isabelle
  imports Complex_Main
begin

section \<open>Values, characters and strings of the Python program\<close>

text \<open>
  The program is \<^verbatim>\<open>mubashir7.py\<close>. A Python \<^verbatim>\<open>str\<close> is modelled as a \<open>string\<close>;
  a \<open>char\<close> stands for the code point of the same number, so the model covers texts
  whose code points are below 256. The argument of \<^verbatim>\<open>clean_text\<close> and
  \<^verbatim>\<open>analyze_email\<close> may be any Python value: \<open>PyStr\<close> is a string, the other
  constructors are values that fail \<^verbatim>\<open>isinstance(text, str)\<close>.
\<close>

datatype py_value = PyNone | PyInt int | PyStr string

text \<open>
  A Python exception: \<open>ValueError\<close> and \<open>OverflowError\<close> are the two that \<^verbatim>\<open>int\<close> raises
  on a float, \<open>Exception\<close> is any other exception of a library the program calls. All
  three are instances of the class \<^verbatim>\<open>Exception\<close>, so \<^verbatim>\<open>except Exception\<close> and a bare
  \<^verbatim>\<open>except\<close> catch each of them.
\<close>

datatype exn = Exception | ValueError | OverflowError

text \<open>
  \<^verbatim>\<open>str.isspace\<close> and the class \<^verbatim>\<open>\s\<close> of \<^verbatim>\<open>re\<close> on a \<^verbatim>\<open>str\<close> pattern agree:
  below 256 the white space is U+0009..U+000D, U+001C..U+0020, U+0085 and U+00A0.
\<close>

definition py_isspace :: "char \<Rightarrow> bool" where
  "py_isspace c =
     (let n = (of_char c :: nat)
      in (9 \<le> n \<and> n \<le> 13) \<or> (28 \<le> n \<and> n \<le> 32) \<or> n = 133 \<or> n = 160)"

text \<open>The ranges \<^verbatim>\<open>a-z\<close>, \<^verbatim>\<open>A-Z\<close> and \<^verbatim>\<open>0-9\<close> of a character class.\<close>

definition is_az :: "char \<Rightarrow> bool" where
  "is_az c = (let n = (of_char c :: nat) in 97 \<le> n \<and> n \<le> 122)"

definition is_AZ :: "char \<Rightarrow> bool" where
  "is_AZ c = (let n = (of_char c :: nat) in 65 \<le> n \<and> n \<le> 90)"

definition is_09 :: "char \<Rightarrow> bool" where
  "is_09 c = (let n = (of_char c :: nat) in 48 \<le> n \<and> n \<le> 57)"

text \<open>
  \<^verbatim>\<open>str.lower\<close>, one code point at a time: below 256 the upper-case letters are
  \<^verbatim>\<open>A-Z\<close> and U+00C0..U+00DE without the multiplication sign U+00D7, and each has its
  lower-case letter 32 places up.
\<close>

definition lower_char :: "char \<Rightarrow> char" where
  "lower_char c =
     (let n = (of_char c :: nat)
      in if (65 \<le> n \<and> n \<le> 90) \<or> (192 \<le> n \<and> n \<le> 222 \<and> n \<noteq> 215)
         then char_of (n + 32) else c)"

definition lower :: "string \<Rightarrow> string" where
  "lower s = map lower_char s"

text \<open>\<^verbatim>\<open>str.strip()\<close> and \<^verbatim>\<open>str.rstrip(chars)\<close>.\<close>

definition strip :: "string \<Rightarrow> string" where
  "strip s = rev (dropWhile py_isspace (rev (dropWhile py_isspace s)))"

definition rstrip :: "string \<Rightarrow> string \<Rightarrow> string" where
  "rstrip chars s = rev (dropWhile (\<lambda>c. c \<in> set chars) (rev s))"

text \<open>\<^verbatim>\<open>sep.join(xs)\<close>.\<close>

fun join :: "string \<Rightarrow> string list \<Rightarrow> string" where
  "join sep [] = []"
| "join sep [x] = x"
| "join sep (x # y # ys) = x @ sep @ join sep (y # ys)"

text \<open>\<^verbatim>\<open>k in text\<close> on two strings: \<open>k\<close> occurs in \<open>text\<close> as a contiguous run.\<close>

fun startswith :: "string \<Rightarrow> string \<Rightarrow> bool" where
  "startswith t [] = True"
| "startswith [] (k # ks) = False"
| "startswith (c # cs) (k # ks) = (c = k \<and> startswith cs ks)"

fun py_in :: "string \<Rightarrow> string \<Rightarrow> bool" where
  "py_in k [] = (k = [])"
| "py_in k (c # cs) = (startswith (c # cs) k \<or> py_in k cs)"

text \<open>\<^verbatim>\<open>str(n)\<close> of an integer, as the f-string \<^verbatim>\<open>f"{n}%"\<close> renders it.\<close>

definition digit :: "nat \<Rightarrow> char" where
  "digit d = char_of (48 + d)"

function str_nat :: "nat \<Rightarrow> string" where
  "str_nat n = (if n < 10 then [digit n] else str_nat (n div 10) @ [digit (n mod 10)])"
  by pat_completeness auto
termination
  by (relation "measure id") auto

declare str_nat.simps [simp del]

definition str_int :: "int \<Rightarrow> string" where
  "str_int i = (if i < 0 then CHR ''-'' # str_nat (nat (- i)) else str_nat (nat i))"

section \<open>Floats\<close>

text \<open>
  A Python \<^verbatim>\<open>float\<close> is an IEEE 754 double: a finite value, one of the two infinities,
  or NaN. A finite double is modelled by the real number it stands for (the two zeros are
  one value: label and confidence do not depend on the sign of a zero).
\<close>

datatype pyfloat = Fin real | PInf | NInf | NaN

text \<open>\<open>pow2 q\<close> is 2 to the power \<open>q\<close>, for an integer \<open>q\<close>.\<close>

definition pow2 :: "int \<Rightarrow> real" where
  "pow2 q = (if 0 \<le> q then 2 ^ nat q else 1 / 2 ^ nat (- q))"

text \<open>Rounding a real number to the nearest integer, a tie going to the even one.\<close>

definition round_even :: "real \<Rightarrow> int" where
  "round_even y =
     (let f = \<lfloor>y\<rfloor>; d = y - of_int f
      in if d < 1 / 2 then f
         else if 1 / 2 < d then f + 1
         else if even f then f else f + 1)"

lemma pow2_pos: "0 < pow2 q"
  by (simp add: pow2_def)

lemma pow2_Suc: "pow2 (q + 1) = 2 * pow2 q"
proof (cases "0 \<le> q")
  case True
  then show ?thesis by (simp add: pow2_def nat_add_distrib)
next
  case False
  then have "nat (- q) = Suc (nat (- (q + 1)))" by simp
  with False show ?thesis by (auto simp: pow2_def)
qed

lemma floor_half_less: "1 \<le> y \<Longrightarrow> \<lfloor>y / 2\<rfloor> < \<lfloor>y::real\<rfloor>"
proof -
  assume y1: "1 \<le> y"
  then have f1: "(1::real) \<le> of_int \<lfloor>y\<rfloor>" by simp
  have "y < of_int \<lfloor>y\<rfloor> + 1" by linarith
  with f1 have "y / 2 < of_int \<lfloor>y\<rfloor>" by linarith
  then show ?thesis by (simp add: floor_less_iff)
qed

text \<open>
  The doubles near \<open>x\<close> are the integer multiples of \<open>pow2 (quantum x)\<close>, the unit in the
  last place: a double has 53 significant bits, so the unit is \<open>pow2 q\<close> for the least
  \<open>q\<close> with \<open>\<bar>x\<bar> < pow2 (q + 53)\<close>, but not below \<open>pow2 (- 1074)\<close>, the least positive
  double. The search starts at the unit of the doubles between 1 and 2 and goes up or
  down.
\<close>

function quantum_up :: "int \<Rightarrow> real \<Rightarrow> int" where
  "quantum_up q x = (if \<bar>x\<bar> < pow2 (q + 53) then q else quantum_up (q + 1) x)"
  by pat_completeness auto
termination
proof (relation "measure (\<lambda>(q, x). nat \<lfloor>\<bar>x\<bar> / pow2 (q + 53)\<rfloor>)", goal_cases)
  case 1
  show ?case by simp
next
  case (2 q x)
  let ?y = "\<bar>x\<bar> / pow2 (q + 53)"
  from 2 have y1: "1 \<le> ?y" using pow2_pos [of "q + 53"] by (simp add: field_simps)
  have e: "pow2 (q + 1 + 53) = 2 * pow2 (q + 53)"
    using pow2_Suc [of "q + 53"] by (simp add: algebra_simps)
  have "\<bar>x\<bar> / pow2 (q + 1 + 53) = ?y / 2"
    unfolding e by simp
  with floor_half_less [OF y1]
  have "\<lfloor>\<bar>x\<bar> / pow2 (q + 1 + 53)\<rfloor> < \<lfloor>?y\<rfloor>" by (simp only:)
  moreover from y1 have "1 \<le> \<lfloor>?y\<rfloor>" by simp
  ultimately show ?case by simp
qed

function quantum_down :: "int \<Rightarrow> real \<Rightarrow> int" where
  "quantum_down q x =
     (if q \<le> - 1074 \<or> pow2 (q + 52) \<le> \<bar>x\<bar> then q else quantum_down (q - 1) x)"
  by pat_completeness auto
termination
  by (relation "measure (\<lambda>(q, x). nat (q + 1074))") auto

declare quantum_up.simps [simp del] quantum_down.simps [simp del]

definition quantum :: "real \<Rightarrow> int" where
  "quantum x = (if 2 \<le> \<bar>x\<bar> then quantum_up (- 52) x else quantum_down (- 52) x)"

text \<open>
  \<open>rnd x\<close> is the multiple of the unit nearest to \<open>x\<close>, a tie going to the even multiple:
  the rounding of every arithmetic operation on doubles. \<open>fround\<close> is the result of an
  operation whose exact value is \<open>x\<close>. The greatest double is \<open>(2 ^ 53 - 1) * pow2 971\<close>:
  the result is an infinity when the unit is above \<open>pow2 971\<close>, or is \<open>pow2 971\<close> and the
  rounded multiple reaches \<open>2 ^ 53\<close>, which is when the rounded value reaches
  \<open>pow2 1024\<close>; otherwise it is \<open>rnd x\<close>.
\<close>

definition rnd :: "real \<Rightarrow> real" where
  "rnd x = of_int (round_even (x / pow2 (quantum x))) * pow2 (quantum x)"

definition fround :: "real \<Rightarrow> pyfloat" where
  "fround x =
     (let q = quantum x; m = round_even (x / pow2 q)
      in if 971 < q \<or> (q = 971 \<and> 2 ^ 53 \<le> \<bar>m\<bar>)
         then (if 0 < x then PInf else NInf)
         else Fin (of_int m * pow2 q))"

text \<open>A decimal literal of the source, such as \<^verbatim>\<open>0.4\<close>, is the double nearest to it.\<close>

definition lit :: "real \<Rightarrow> pyfloat" where
  "lit x = fround x"

text \<open>\<^verbatim>\<open>a > b\<close> on floats: false whenever one of them is NaN.\<close>

fun fgt :: "pyfloat \<Rightarrow> pyfloat \<Rightarrow> bool" where
  "fgt (Fin x) (Fin y) = (y < x)"
| "fgt (Fin x) NInf = True"
| "fgt PInf (Fin y) = True"
| "fgt PInf NInf = True"
| "fgt _ _ = False"

text \<open>\<^verbatim>\<open>max(a, b)\<close> keeps its first argument unless the second is greater.\<close>

definition fmax :: "pyfloat \<Rightarrow> pyfloat \<Rightarrow> pyfloat" where
  "fmax a b = (if fgt b a then b else a)"

text \<open>\<^verbatim>\<open>a - b\<close> and \<^verbatim>\<open>a * b\<close> on floats.\<close>

fun fsub :: "pyfloat \<Rightarrow> pyfloat \<Rightarrow> pyfloat" where
  "fsub (Fin x) (Fin y) = fround (x - y)"
| "fsub NaN _ = NaN"
| "fsub _ NaN = NaN"
| "fsub PInf PInf = NaN"
| "fsub NInf NInf = NaN"
| "fsub PInf _ = PInf"
| "fsub NInf _ = NInf"
| "fsub (Fin x) PInf = NInf"
| "fsub (Fin x) NInf = PInf"

fun fmul :: "pyfloat \<Rightarrow> pyfloat \<Rightarrow> pyfloat" where
  "fmul (Fin x) (Fin y) = fround (x * y)"
| "fmul NaN _ = NaN"
| "fmul _ NaN = NaN"
| "fmul PInf (Fin y) = (if y = 0 then NaN else if 0 < y then PInf else NInf)"
| "fmul NInf (Fin y) = (if y = 0 then NaN else if 0 < y then NInf else PInf)"
| "fmul (Fin x) PInf = (if x = 0 then NaN else if 0 < x then PInf else NInf)"
| "fmul (Fin x) NInf = (if x = 0 then NaN else if 0 < x then NInf else PInf)"
| "fmul PInf PInf = PInf"
| "fmul PInf NInf = NInf"
| "fmul NInf PInf = NInf"
| "fmul NInf NInf = PInf"

text \<open>
  \<^verbatim>\<open>int(x)\<close> of a float cuts the fraction off, towards zero; it raises
  \<^verbatim>\<open>OverflowError\<close> on an infinity and \<^verbatim>\<open>ValueError\<close> on NaN.
\<close>

fun py_int :: "pyfloat \<Rightarrow> exn + int" where
  "py_int (Fin x) = Inr (if 0 \<le> x then \<lfloor>x\<rfloor> else \<lceil>x\<rceil>)"
| "py_int PInf = Inl OverflowError"
| "py_int NInf = Inl OverflowError"
| "py_int NaN = Inl ValueError"

section \<open>Configuration\<close>

definition SUSPICIOUS_KEYWORDS :: "string list" where
  "SUSPICIOUS_KEYWORDS =
     [''urgent'', ''verify'', ''password'', ''click'', ''confirm'', ''account'', ''login'',
      ''security'', ''reset'', ''bank'', ''otp'', ''update'', ''alert'', ''access'',
      ''limited time'', ''immediately'', ''payment'', ''refund'', ''locked'', ''blocked'']"

section \<open>Text cleaning\<close>

text \<open>
  \<^verbatim>\<open>re.sub(r'<.*?>', '', text)\<close>. After a \<^verbatim>\<open><\<close> the lazy \<^verbatim>\<open>.*?\<close> takes characters
  until the first \<^verbatim>\<open>>\<close>; the dot matches no line feed (the pattern has no
  \<^verbatim>\<open>re.DOTALL\<close>), so the match fails when a line feed or the end of the text comes first.
  \<open>match_tag\<close> reads the text after the \<^verbatim>\<open><\<close> and returns what follows the match.
\<close>

fun match_tag :: "string \<Rightarrow> string option" where
  "match_tag [] = None"
| "match_tag (c # cs) =
     (if c = CHR ''>'' then Some cs
      else if c = CHR 0x0A then None
      else match_tag cs)"

lemma match_tag_length: "match_tag cs = Some r \<Longrightarrow> length r < Suc (length cs)"
  by (induction cs) (auto split: if_splits)

function sub_tags :: "string \<Rightarrow> string" where
  "sub_tags [] = []"
| "sub_tags (c # cs) =
     (if c = CHR ''<''
      then (case match_tag cs of
              Some r \<Rightarrow> sub_tags r
            | None \<Rightarrow> c # sub_tags cs)
      else c # sub_tags cs)"
  by pat_completeness auto
termination
  by (relation "measure length") (auto dest: match_tag_length)

text \<open>The class \<^verbatim>\<open>[^a-zA-Z0-9\s:/._-]\<close> is the complement of \<open>kept\<close>.\<close>

definition kept :: "char \<Rightarrow> bool" where
  "kept c = (is_az c \<or> is_AZ c \<or> is_09 c \<or> py_isspace c \<or>
             c = CHR '':'' \<or> c = CHR ''/'' \<or> c = CHR ''.'' \<or> c = CHR ''_'' \<or> c = CHR ''-'')"

fun clean_text :: "py_value \<Rightarrow> string" where
  "clean_text (PyStr text) = strip (lower (filter kept (sub_tags text)))"
| "clean_text _ = []"

section \<open>URL extraction\<close>

text \<open>
  \<^verbatim>\<open>URL_REGEX = re.compile(r"(https?://[^\s<>\"']+|www\.[^\s<>\"']+)", flags=re.IGNORECASE)\<close>.
  \<open>url_char\<close> is the class \<^verbatim>\<open>[^\s<>\"']\<close>. Under \<^verbatim>\<open>re.IGNORECASE\<close> a letter of the
  pattern matches its two cases; \<open>match_lit\<close> matches a literal of the pattern at the head
  of the text and returns the rest of the text.
\<close>

definition url_char :: "char \<Rightarrow> bool" where
  "url_char c = (\<not> py_isspace c \<and> c \<noteq> CHR ''<'' \<and> c \<noteq> CHR ''>'' \<and>
                 c \<noteq> CHR 0x22 \<and> c \<noteq> CHR 0x27)"

fun match_lit :: "string \<Rightarrow> string \<Rightarrow> string option" where
  "match_lit [] t = Some t"
| "match_lit (p # ps) [] = None"
| "match_lit (p # ps) (c # cs) =
     (if lower_char c = lower_char p then match_lit ps cs else None)"

text \<open>
  \<open>match_tail\<close> is the greedy \<^verbatim>\<open>[^\s<>\"']+\<close> that ends both alternatives: the longest
  run of \<open>url_char\<close>, which must not be empty. It returns the run and the rest.
\<close>

definition match_tail :: "string \<Rightarrow> (string \<times> string) option" where
  "match_tail t =
     (if takeWhile url_char t = [] then None
      else Some (takeWhile url_char t, dropWhile url_char t))"

text \<open>
  The alternative \<^verbatim>\<open>https?://[^\s<>\"']+\<close>: the optional \<^verbatim>\<open>s\<close> is tried first and
  given up when \<^verbatim>\<open>://\<close> does not follow it.
\<close>

definition match_http :: "string \<Rightarrow> (string \<times> string) option" where
  "match_http t =
     (case match_lit ''http'' t of
        None \<Rightarrow> None
      | Some r \<Rightarrow>
          (case (case match_lit ''s'' r of
                   Some r1 \<Rightarrow> (case match_lit ''://'' r1 of Some r2 \<Rightarrow> Some r2
                                | None \<Rightarrow> match_lit ''://'' r)
                 | None \<Rightarrow> match_lit ''://'' r) of
             None \<Rightarrow> None
           | Some r2 \<Rightarrow>
               (case match_tail r2 of
                  None \<Rightarrow> None
                | Some (m, rest) \<Rightarrow> Some (take (length t - length r2) t @ m, rest))))"

definition match_www :: "string \<Rightarrow> (string \<times> string) option" where
  "match_www t =
     (case match_lit ''www.'' t of
        None \<Rightarrow> None
      | Some r \<Rightarrow>
          (case match_tail r of
             None \<Rightarrow> None
           | Some (m, rest) \<Rightarrow> Some (take (length t - length r) t @ m, rest)))"

text \<open>A match of \<^verbatim>\<open>URL_REGEX\<close> at the head of the text: the matched text and the rest.\<close>

definition match_url :: "string \<Rightarrow> (string \<times> string) option" where
  "match_url t = (case match_http t of Some x \<Rightarrow> Some x | None \<Rightarrow> match_www t)"

lemma match_lit_length: "match_lit p t = Some r \<Longrightarrow> length r \<le> length t"
  by (induction p t rule: match_lit.induct) (auto split: if_splits)

lemma match_lit_Cons_length: "match_lit (p # ps) t = Some r \<Longrightarrow> length r < length t"
  by (cases t) (auto split: if_splits dest: match_lit_length)

lemma match_tail_length: "match_tail t = Some (m, r) \<Longrightarrow> length r \<le> length t"
  by (auto simp: match_tail_def length_dropWhile_le split: if_splits)

lemma match_http_length: "match_http t = Some (m, r) \<Longrightarrow> length r < length t"
  unfolding match_http_def
  by (fastforce split: option.splits
      dest: match_lit_Cons_length match_lit_length match_tail_length)

lemma match_www_length: "match_www t = Some (m, r) \<Longrightarrow> length r < length t"
  unfolding match_www_def
  by (fastforce split: option.splits dest: match_lit_Cons_length match_tail_length)

lemma match_url_length: "match_url t = Some (m, r) \<Longrightarrow> length r < length t"
  unfolding match_url_def
  by (auto split: option.splits dest: match_http_length match_www_length)

text \<open>
  \<^verbatim>\<open>URL_REGEX.findall(text)\<close>: the matches from left to right, the search going on after
  each match, or one character further where there is none.
\<close>

function findall :: "string \<Rightarrow> string list" where
  "findall [] = []"
| "findall (c # cs) =
     (case match_url (c # cs) of
        Some (m, r) \<Rightarrow> m # findall r
      | None \<Rightarrow> findall cs)"
  by pat_completeness auto
termination
  by (relation "measure length") (auto dest: match_url_length)

definition extract_urls :: "string \<Rightarrow> string list" where
  "extract_urls text = map (rstrip [CHR ''.'', CHR '','', CHR '';'', CHR ''!'', CHR ''?'',
                                    CHR '')'', CHR 0x22, CHR 0x27]) (findall text)"

section \<open>Registered domain\<close>

text \<open>
  \<^verbatim>\<open>tldextract.extract\<close> is a library with the public suffix list behind it. It is a
  parameter of the model: a function that returns the parts of the URL or raises. The
  call stands in a \<^verbatim>\<open>try\<close> statement whose handler \<^verbatim>\<open>except Exception\<close> returns the
  empty string, so every path of \<^verbatim>\<open>get_registered_domain\<close> returns a string.
\<close>

record ext =
  subdomain :: string
  domain :: string
  suffix :: string

definition get_registered_domain :: "(string \<Rightarrow> exn + ext) \<Rightarrow> string \<Rightarrow> string" where
  "get_registered_domain tld_extract url =
     (case tld_extract url of
        Inr e \<Rightarrow>
          (if domain e \<noteq> [] \<and> suffix e \<noteq> []
           then lower (domain e @ ''.'' @ suffix e)
           else lower url)
      | Inl e \<Rightarrow> [])"

section \<open>The analyzer\<close>

text \<open>
  \<^verbatim>\<open>analyze_email\<close> returns a triple: label, confidence, explanation. The calls
  of the encoder and of the similarity stand in its \<^verbatim>\<open>try\<close> statement, whose bare
  \<^verbatim>\<open>except\<close> catches every exception. The conversion \<^verbatim>\<open>int(...)\<close> of the confidence
  stands after it: what it raises leaves \<^verbatim>\<open>analyze_email\<close>, which is the \<open>Inl\<close> of the
  result. The labels
  are the five strings of the source, each with a pictograph in front:
  \<open>NoTextProvided\<close> is \<^verbatim>\<open>No text provided.\<close>, \<open>SafeEmail\<close> is \<^verbatim>\<open>Safe Email\<close>,
  \<open>PhishingEmail\<close> is \<^verbatim>\<open>Phishing Email\<close>, \<open>SuspiciousEmail\<close> is
  \<^verbatim>\<open>Suspicious Email\<close> and \<open>LegitimateEmail\<close> is \<^verbatim>\<open>Legitimate Email\<close>.
\<close>

datatype label = NoTextProvided | SafeEmail | PhishingEmail | SuspiciousEmail | LegitimateEmail

text \<open>
  A line of \<^verbatim>\<open>explanation_lines\<close>: the constructor is the fixed head of the line
  (\<^verbatim>\<open>URLs found: \<close>, \<^verbatim>\<open>Non-whitelisted domains: \<close>, \<^verbatim>\<open>No URLs detected.\<close>,
  \<^verbatim>\<open>Suspicious keywords: \<close>, \<^verbatim>\<open>Semantic similarity score: \<close>) and the argument is
  what the f-string puts after it; the score is kept as the float that \<^verbatim>\<open>:.2f\<close>
  formats. An explanation is a string given as it is (\<open>Text\<close>) or
  \<^verbatim>\<open>"\n".join(explanation_lines)\<close> (\<open>Lines\<close>).
\<close>

datatype line =
  UrlsFound string
| NonWhitelisted string
| NoUrlsDetected
| SuspiciousKeywords string
| SimilarityScore pyfloat

datatype explanation_text = Text string | Lines "line list"

record verdict =
  label :: label
  confidence :: string
  explanation :: explanation_text

text \<open>
  The whitelist \<^verbatim>\<open>SAFE_DOMAINS\<close> is loaded when the module starts; the analyzer takes
  it as a parameter. This is the set the source falls back to without its files.
\<close>

definition default_SAFE_DOMAINS :: "string set" where
  "default_SAFE_DOMAINS = {''gmail.com'', ''yahoo.com'', ''outlook.com''}"

text \<open>
  The body of the \<^verbatim>\<open>try\<close> block. \<open>encode_cached\<close> is the memoised
  \<^verbatim>\<open>semantic_model.encode\<close>, a function of the text that returns a tensor or raises
  (\<^verbatim>\<open>lru_cache\<close> gives a second call on the same text the tensor of the first, as a
  function does; its bound of 200 entries is not modelled);
  \<open>cos_sim a b\<close> is \<^verbatim>\<open>float(util.cos_sim(a, b).item())\<close>, a float. Both belong to
  \<^verbatim>\<open>sentence_transformers\<close> and are parameters of the model.
\<close>

definition try_cosine ::
  "(string \<Rightarrow> exn + 'v) \<Rightarrow> ('v \<Rightarrow> 'v \<Rightarrow> exn + pyfloat) \<Rightarrow> string \<Rightarrow> string list \<Rightarrow>
   exn + pyfloat" where
  "try_cosine encode_cached cos_sim email_text urls =
     (case encode_cached email_text of
        Inl e \<Rightarrow> Inl e
      | Inr email_emb \<Rightarrow>
          (case encode_cached (if urls \<noteq> [] then join '' '' urls else email_text) of
             Inl e \<Rightarrow> Inl e
           | Inr other_emb \<Rightarrow> cos_sim email_emb other_emb))"

text \<open>
  \<^verbatim>\<open>cosine_score\<close> after the \<^verbatim>\<open>try\<close> statement: the bare \<^verbatim>\<open>except\<close> sets it to the
  integer 0, which compares, subtracts and multiplies as the float 0 does.
\<close>

definition cosine_score ::
  "(string \<Rightarrow> exn + 'v) \<Rightarrow> ('v \<Rightarrow> 'v \<Rightarrow> exn + pyfloat) \<Rightarrow> string \<Rightarrow> string list \<Rightarrow>
   pyfloat" where
  "cosine_score encode_cached cos_sim email_text urls =
     (case try_cosine encode_cached cos_sim email_text urls of
        Inr s \<Rightarrow> s
      | Inl e \<Rightarrow> Fin 0)"

text \<open>\<^verbatim>\<open>hits = [k for k in SUSPICIOUS_KEYWORDS if k in email_text]\<close>.\<close>

definition hits :: "string \<Rightarrow> string list" where
  "hits email_text = filter (\<lambda>k. py_in k email_text) SUSPICIOUS_KEYWORDS"

text \<open>The f-string \<^verbatim>\<open>f"{int(x)}%"\<close>, or what \<^verbatim>\<open>int\<close> raises.\<close>

definition percent :: "pyfloat \<Rightarrow> exn + string" where
  "percent x = (case py_int x of Inl e \<Rightarrow> Inl e | Inr n \<Rightarrow> Inr (str_int n @ ''%''))"

text \<open>
  The \<^verbatim>\<open>if/elif/else\<close> that sets \<^verbatim>\<open>label\<close> and \<^verbatim>\<open>confidence\<close>. The integers 1 and
  100 of the source become the floats 1 and 100 in the arithmetic.
\<close>

definition fuse :: "string list \<Rightarrow> pyfloat \<Rightarrow> exn + label \<times> string" where
  "fuse hs score =
     (if hs \<noteq> [] \<and> fgt score (lit 0.4)
      then (case percent (fmul (fmax score (lit 0.8)) (Fin 100)) of
              Inl e \<Rightarrow> Inl e
            | Inr conf \<Rightarrow> Inr (PhishingEmail, conf))
      else if hs \<noteq> [] \<or> fgt score (lit 0.6)
      then (case percent (fmul (fmax score (lit 0.6)) (Fin 100)) of
              Inl e \<Rightarrow> Inl e
            | Inr conf \<Rightarrow> Inr (SuspiciousEmail, conf))
      else (case percent (fmul (fsub (Fin 1) score) (Fin 100)) of
              Inl e \<Rightarrow> Inl e
            | Inr conf \<Rightarrow> Inr (LegitimateEmail, conf)))"

definition analyze_email ::
  "(string \<Rightarrow> exn + ext) \<Rightarrow> string set \<Rightarrow> (string \<Rightarrow> exn + 'v) \<Rightarrow> ('v \<Rightarrow> 'v \<Rightarrow> exn + pyfloat) \<Rightarrow>
   py_value \<Rightarrow> exn + verdict" where
  "analyze_email tld_extract SAFE_DOMAINS encode_cached cos_sim email =
     (let email_text = clean_text email in
      if email_text = []
      then Inr \<lparr>label = NoTextProvided, confidence = ''0%'',
                explanation = Text ''Please paste the email content.''\<rparr>
      else
        let urls = extract_urls email_text;
            domains = map (get_registered_domain tld_extract) urls;
            safe_hits = filter (\<lambda>d. d \<in> SAFE_DOMAINS) domains;
            non_safe_hits = filter (\<lambda>d. d \<notin> SAFE_DOMAINS) domains
        in if urls \<noteq> [] \<and> safe_hits \<noteq> [] \<and> non_safe_hits = []
           then Inr \<lparr>label = SafeEmail, confidence = ''99%'',
                     explanation =
                       Text (''All domains are whitelisted: '' @ join '', '' safe_hits)\<rparr>
           else
             let lines1 =
                   (if urls \<noteq> []
                    then UrlsFound (join '', '' urls) #
                         (if non_safe_hits \<noteq> []
                          then [NonWhitelisted (join '', '' non_safe_hits)] else [])
                    else [NoUrlsDetected]);
                 score = cosine_score encode_cached cos_sim email_text urls;
                 hs = hits email_text;
                 lines2 = lines1 @ (if hs \<noteq> [] then [SuspiciousKeywords (join '', '' hs)] else [])
             in case fuse hs score of
                  Inl e \<Rightarrow> Inl e
                | Inr (lab, conf) \<Rightarrow>
                    Inr \<lparr>label = lab, confidence = conf,
                         explanation = Lines (lines2 @ [SimilarityScore score])\<rparr>)"

text \<open>Label and confidence of what \<^verbatim>\<open>analyze_email\<close> returns, or what it raises.\<close>

definition label_confidence :: "exn + verdict \<Rightarrow> exn + label \<times> string" where
  "label_confidence r =
     (case r of Inl e \<Rightarrow> Inl e | Inr v \<Rightarrow> Inr (label v, confidence v))"

section \<open>The normalizer as the specification words it\<close>

text \<open>
  The specification of the normalizer: remove the HTML-like tags \<^verbatim>\<open><...>\<close> entirely,
  remove the characters outside the kept set, lower the case, trim. Read by its words, a
  tag runs from a \<^verbatim>\<open><\<close> to the next \<^verbatim>\<open>>\<close>, whatever stands between them.
  \<open>skip_tag\<close> reads the text after the \<^verbatim>\<open><\<close> and returns what follows the tag.
\<close>

fun skip_tag :: "string \<Rightarrow> string option" where
  "skip_tag [] = None"
| "skip_tag (c # cs) = (if c = CHR ''>'' then Some cs else skip_tag cs)"

lemma skip_tag_length: "skip_tag cs = Some r \<Longrightarrow> length r < Suc (length cs)"
  by (induction cs) (auto split: if_splits)

function remove_tags_spec :: "string \<Rightarrow> string" where
  "remove_tags_spec [] = []"
| "remove_tags_spec (c # cs) =
     (if c = CHR ''<''
      then (case skip_tag cs of
              Some r \<Rightarrow> remove_tags_spec r
            | None \<Rightarrow> c # remove_tags_spec cs)
      else c # remove_tags_spec cs)"
  by pat_completeness auto
termination
  by (relation "measure length") (auto dest: skip_tag_length)

fun normalize_spec :: "py_value \<Rightarrow> string" where
  "normalize_spec (PyStr text) = strip (lower (filter kept (remove_tags_spec text)))"
| "normalize_spec _ = []"

section \<open>Sample collaborators\<close>

text \<open>
  Instances of the three library functions, for evaluating the analyzer on concrete
  messages: a suffix parser that knows three URLs and raises on any other, a parser and
  an encoder that always raise, an encoder that succeeds, and similarity functions that
  return a given float or raise.
\<close>

definition sample_extract :: "string \<Rightarrow> exn + ext" where
  "sample_extract url =
     (if url = ''https://mail.gmail.com/inbox''
      then Inr \<lparr>subdomain = ''mail'', domain = ''gmail'', suffix = ''com''\<rparr>
      else if url = ''http://evil-bank-login.xyz''
      then Inr \<lparr>subdomain = [], domain = ''evil-bank-login'', suffix = ''xyz''\<rparr>
      else if url = ''http://localhost/a''
      then Inr \<lparr>subdomain = [], domain = ''localhost'', suffix = []\<rparr>
      else Inl Exception)"

definition raising_extract :: "string \<Rightarrow> exn + ext" where
  "raising_extract url = Inl Exception"

definition raising_encode :: "string \<Rightarrow> exn + nat" where
  "raising_encode text = Inl Exception"

definition sample_encode :: "string \<Rightarrow> exn + nat" where
  "sample_encode text = Inr (length text)"

definition const_cos_sim :: "pyfloat \<Rightarrow> nat \<Rightarrow> nat \<Rightarrow> exn + pyfloat" where
  "const_cos_sim r a b = Inr r"

definition raising_cos_sim :: "nat \<Rightarrow> nat \<Rightarrow> exn + pyfloat" where
  "raising_cos_sim a b = Inl Exception"

section \<open>Lemmas about the floats\<close>

lemma round_even_nonneg: "0 \<le> y \<Longrightarrow> 0 \<le> round_even y"
  by (auto simp: round_even_def Let_def)

lemma round_even_le: "y \<le> of_int k \<Longrightarrow> round_even y \<le> k"
proof -
  assume yk: "y \<le> of_int k"
  then have fk: "\<lfloor>y\<rfloor> \<le> k" by (simp add: floor_le_iff)
  show ?thesis
  proof (cases "y = of_int \<lfloor>y\<rfloor>")
    case True
    then have "y - of_int \<lfloor>y\<rfloor> = 0" by simp
    then have "round_even y = \<lfloor>y\<rfloor>" by (simp add: round_even_def Let_def)
    with fk show ?thesis by simp
  next
    case False
    then have "of_int \<lfloor>y\<rfloor> < y" by (metis of_int_floor_le less_eq_real_def)
    with yk have "(of_int \<lfloor>y\<rfloor> :: real) < of_int k" by linarith
    then have "\<lfloor>y\<rfloor> + 1 \<le> k" by simp
    moreover have "round_even y \<le> \<lfloor>y\<rfloor> + 1" by (simp add: round_even_def Let_def)
    ultimately show ?thesis by linarith
  qed
qed

lemma quantum_up_le: "q \<le> b \<Longrightarrow> \<bar>x\<bar> < pow2 (b + 53) \<Longrightarrow> quantum_up q x \<le> b"
proof (induction q x rule: quantum_up.induct)
  case (1 q x)
  show ?case
  proof (cases "\<bar>x\<bar> < pow2 (q + 53)")
    case True
    with 1 show ?thesis by (simp add: quantum_up.simps)
  next
    case False
    have "q \<noteq> b" using False "1.prems"(2) by auto
    with "1.prems"(1) have "q + 1 \<le> b" by simp
    from "1.IH" [OF False this "1.prems"(2)] False show ?thesis
      by (simp add: quantum_up.simps [of q])
  qed
qed

lemma quantum_down_le: "quantum_down q x \<le> q"
proof (induction q x rule: quantum_down.induct)
  case (1 q x)
  show ?case
  proof (cases "q \<le> - 1074 \<or> pow2 (q + 52) \<le> \<bar>x\<bar>")
    case True
    then show ?thesis by (simp add: quantum_down.simps)
  next
    case False
    from "1.IH" [OF False] False show ?thesis
      by (simp add: quantum_down.simps [of q])
  qed
qed

text \<open>Below \<open>2 ^ 53\<close> the unit is at most 1, so the integers there are doubles.\<close>

lemma quantum_le_0: "\<bar>x\<bar> < 2 ^ 53 \<Longrightarrow> quantum x \<le> 0"
proof -
  assume "\<bar>x\<bar> < 2 ^ 53"
  then have "\<bar>x\<bar> < pow2 (0 + 53)" by (simp add: pow2_def)
  from quantum_up_le [OF _ this, of "- 52"] have "quantum_up (- 52) x \<le> 0" by simp
  moreover have "quantum_down (- 52) x \<le> 0" using quantum_down_le [of "- 52" x] by simp
  ultimately show ?thesis by (simp add: quantum_def)
qed

lemma rnd_nonneg: "0 \<le> x \<Longrightarrow> 0 \<le> rnd x"
  using pow2_pos [of "quantum x"] by (simp add: rnd_def round_even_nonneg)

lemma rnd_le_int: "x \<le> of_int n \<Longrightarrow> \<bar>x\<bar> < 2 ^ 53 \<Longrightarrow> rnd x \<le> of_int n"
proof -
  assume xn: "x \<le> of_int n" and small: "\<bar>x\<bar> < 2 ^ 53"
  define k where "k = nat (- quantum x)"
  from quantum_le_0 [OF small] have p: "pow2 (quantum x) = 1 / 2 ^ k"
    by (auto simp: pow2_def k_def)
  have "x / pow2 (quantum x) = x * 2 ^ k" by (simp add: p)
  also from xn have "\<dots> \<le> of_int n * 2 ^ k" by simp
  also have "\<dots> = of_int (n * 2 ^ k)" by simp
  finally have "round_even (x / pow2 (quantum x)) \<le> n * 2 ^ k" by (rule round_even_le)
  then have "(of_int (round_even (x / pow2 (quantum x))) :: real) \<le> of_int (n * 2 ^ k)"
    by (simp only: of_int_le_iff)
  then have "of_int (round_even (x / pow2 (quantum x))) * (1 / 2 ^ k) \<le> (of_int n :: real)"
    by (simp add: field_simps)
  then show ?thesis by (simp add: rnd_def p)
qed

text \<open>An operation with an exact result between 0 and a small integer does not overflow.\<close>

lemma fround_range:
  assumes "0 \<le> x" and "x \<le> of_int n" and "n \<le> 1000"
  shows "fround x = Fin (rnd x) \<and> 0 \<le> rnd x \<and> rnd x \<le> of_int n"
proof -
  from assms have "\<bar>x\<bar> \<le> 1000" by simp
  then have small: "\<bar>x\<bar> < 2 ^ 53" by simp
  from rnd_le_int [OF assms(2) small] have le: "rnd x \<le> of_int n" .
  from rnd_nonneg [OF assms(1)] have ge: "0 \<le> rnd x" .
  from quantum_le_0 [OF small] have "fround x = Fin (rnd x)"
    by (simp add: fround_def rnd_def Let_def)
  with le ge show ?thesis by simp
qed

lemma lit_fin: "0 \<le> x \<Longrightarrow> x \<le> 1 \<Longrightarrow> lit x = Fin (rnd x) \<and> 0 \<le> rnd x \<and> rnd x \<le> 1"
  using fround_range [of x 1] by (simp add: lit_def)

lemma fmax_Fin: "fmax (Fin a) (Fin b) = Fin (max a b)"
  by (simp add: fmax_def max_def)

text \<open>The confidence of a product with 100 whose exact value is in range.\<close>

lemma percent_times_100:
  assumes "0 \<le> m" and "m \<le> of_int k" and "k \<le> 10"
  shows "percent (fmul (Fin m) (Fin 100)) = Inr (str_int \<lfloor>rnd (m * 100)\<rfloor> @ ''%'') \<and>
         0 \<le> \<lfloor>rnd (m * 100)\<rfloor> \<and> \<lfloor>rnd (m * 100)\<rfloor> \<le> k * 100"
proof -
  from assms(1) have x0: "0 \<le> m * 100" by simp
  from assms(2) have xk: "m * 100 \<le> of_int (k * 100)" by simp
  from assms(3) have "k * 100 \<le> 1000" by simp
  from fround_range [OF x0 xk this]
  have f: "fround (m * 100) = Fin (rnd (m * 100))" and ge: "0 \<le> rnd (m * 100)"
    and le: "rnd (m * 100) \<le> of_int (k * 100)" by simp_all
  from f ge have "percent (fmul (Fin m) (Fin 100)) = Inr (str_int \<lfloor>rnd (m * 100)\<rfloor> @ ''%'')"
    by (simp add: percent_def)
  moreover from ge have "0 \<le> \<lfloor>rnd (m * 100)\<rfloor>" by simp
  moreover from le have "\<lfloor>rnd (m * 100)\<rfloor> \<le> k * 100" by (simp only: floor_le_iff)
  ultimately show ?thesis by simp
qed

section \<open>Lemmas about the helper functions\<close>

lemma startswith_iff: "startswith t k \<longleftrightarrow> (\<exists>s. t = k @ s)"
  by (induction t k rule: startswith.induct) auto

lemma py_in_iff: "py_in k t \<longleftrightarrow> (\<exists>p s. t = p @ k @ s)"
proof (induction t)
  case Nil
  then show ?case by auto
next
  case (Cons c cs)
  show ?case
  proof
    assume "py_in k (c # cs)"
    then consider "startswith (c # cs) k" | "py_in k cs" by auto
    then show "\<exists>p s. c # cs = p @ k @ s"
    proof cases
      case 1
      then obtain s where "c # cs = k @ s" by (auto simp: startswith_iff)
      then have "c # cs = [] @ k @ s" by simp
      then show ?thesis by blast
    next
      case 2
      with Cons.IH obtain p s where "cs = p @ k @ s" by blast
      then have "c # cs = (c # p) @ k @ s" by simp
      then show ?thesis by blast
    qed
  next
    assume "\<exists>p s. c # cs = p @ k @ s"
    then obtain p s where ps: "c # cs = p @ k @ s" by blast
    show "py_in k (c # cs)"
    proof (cases p)
      case Nil
      with ps have "startswith (c # cs) k" by (auto simp: startswith_iff)
      then show ?thesis by simp
    next
      case (Cons a p')
      with ps have "cs = p' @ k @ s" by simp
      with Cons.IH have "py_in k cs" by blast
      then show ?thesis by simp
    qed
  qed
qed

lemma extract_urls_Nil: "extract_urls [] = []"
  by (simp add: extract_urls_def)

lemma filter_all_in:
  "\<forall>d \<in> set ds. d \<in> S \<Longrightarrow> filter (\<lambda>d. d \<in> S) ds = ds \<and> filter (\<lambda>d. d \<notin> S) ds = []"
  by (induction ds) auto

section \<open>Lemmas about the analyzer\<close>

lemma short_circuit_iff:
  "(urls \<noteq> [] \<and> filter (\<lambda>d. d \<in> S) (map g urls) \<noteq> [] \<and> filter (\<lambda>d. d \<notin> S) (map g urls) = [])
   \<longleftrightarrow> (urls \<noteq> [] \<and> (\<forall>u \<in> set urls. g u \<in> S))"
  by (cases urls) (auto simp: filter_empty_conv)

lemma analyze_email_fusion:
  assumes "clean_text email \<noteq> []"
    and "extract_urls (clean_text email) = [] \<or>
         (\<exists>u \<in> set (extract_urls (clean_text email)). get_registered_domain tld_extract u \<notin> S)"
  shows "label_confidence (analyze_email tld_extract S enc csim email) =
         fuse (hits (clean_text email))
              (cosine_score enc csim (clean_text email) (extract_urls (clean_text email)))"
proof -
  let ?urls = "extract_urls (clean_text email)"
  from assms(2) have "\<not> (?urls \<noteq> [] \<and> (\<forall>u \<in> set ?urls. get_registered_domain tld_extract u \<in> S))"
    by auto
  then have "\<not> (?urls \<noteq> [] \<and>
      filter (\<lambda>d. d \<in> S) (map (get_registered_domain tld_extract) ?urls) \<noteq> [] \<and>
      filter (\<lambda>d. d \<notin> S) (map (get_registered_domain tld_extract) ?urls) = [])"
    unfolding short_circuit_iff .
  with assms(1) show ?thesis
    by (auto simp: analyze_email_def label_confidence_def Let_def split: sum.splits prod.splits)
qed

lemma analyze_email_whitelisted:
  assumes "extract_urls (clean_text email) \<noteq> []"
    and "\<forall>u \<in> set (extract_urls (clean_text email)). get_registered_domain tld_extract u \<in> S"
  shows "label_confidence (analyze_email tld_extract S enc csim email) = Inr (SafeEmail, ''99%'')"
proof -
  let ?urls = "extract_urls (clean_text email)"
  from assms(1) have ne: "clean_text email \<noteq> []"
    using extract_urls_Nil by auto
  from assms have "?urls \<noteq> [] \<and>
      filter (\<lambda>d. d \<in> S) (map (get_registered_domain tld_extract) ?urls) \<noteq> [] \<and>
      filter (\<lambda>d. d \<notin> S) (map (get_registered_domain tld_extract) ?urls) = []"
    unfolding short_circuit_iff by simp
  with ne show ?thesis
    by (simp add: analyze_email_def label_confidence_def Let_def)
qed

lemma analyze_email_empty:
  "clean_text email = [] \<Longrightarrow>
   analyze_email tld_extract S enc csim email =
     Inr \<lparr>label = NoTextProvided, confidence = ''0%'',
          explanation = Text ''Please paste the email content.''\<rparr>"
  by (simp add: analyze_email_def)

lemma hits_nonempty_iff:
  "hits t \<noteq> [] \<longleftrightarrow> (\<exists>k \<in> set SUSPICIOUS_KEYWORDS. py_in k t)"
  by (auto simp: hits_def filter_empty_conv)

lemma cosine_score_const: "cosine_score sample_encode (const_cos_sim r) t us = r"
  by (simp add: cosine_score_def try_cosine_def sample_encode_def const_cos_sim_def)

lemma try_cosine_raising: "try_cosine raising_encode c t us = Inl Exception"
  by (simp add: try_cosine_def raising_encode_def)

lemma try_cosine_raising_cos_sim: "try_cosine sample_encode raising_cos_sim t us = Inl Exception"
  by (simp add: try_cosine_def sample_encode_def raising_cos_sim_def)

text \<open>The keyword hits enter the fusion only through being empty or not.\<close>

lemma fuse_hits_cases: "fuse hs s = (if hs \<noteq> [] then fuse [[]] s else fuse [] s)"
  by (simp add: fuse_def)

lemma fuse_score_1:
  "fuse hs (Fin 1) =
     Inr (if hs \<noteq> [] then (PhishingEmail, ''100%'') else (SuspiciousEmail, ''100%''))"
proof -
  have "fuse [[]] (Fin 1) = Inr (PhishingEmail, ''100%'')" by code_simp
  moreover have "fuse [] (Fin 1) = Inr (SuspiciousEmail, ''100%'')" by code_simp
  ultimately show ?thesis by (simp add: fuse_hits_cases [of hs])
qed

lemma fuse_score_0:
  "fuse hs (Fin 0) =
     Inr (if hs \<noteq> [] then (SuspiciousEmail, ''60%'') else (LegitimateEmail, ''100%''))"
proof -
  have "fuse [[]] (Fin 0) = Inr (SuspiciousEmail, ''60%'')" by code_simp
  moreover have "fuse [] (Fin 0) = Inr (LegitimateEmail, ''100%'')" by code_simp
  ultimately show ?thesis by (simp add: fuse_hits_cases [of hs])
qed

lemma fuse_at_lit04: "hs \<noteq> [] \<Longrightarrow> fuse hs (lit 0.4) = Inr (SuspiciousEmail, ''60%'')"
proof -
  assume "hs \<noteq> []"
  moreover have "fuse [[]] (lit 0.4) = Inr (SuspiciousEmail, ''60%'')" by code_simp
  ultimately show ?thesis by (simp add: fuse_hits_cases [of hs])
qed

lemma fuse_at_lit06: "fuse [] (lit 0.6) = Inr (LegitimateEmail, ''40%'')"
  by code_simp

text \<open>
  The fusion on a finite score between \<open>- 1\<close> and 1: no operation overflows, every
  argument of \<^verbatim>\<open>int\<close> is finite and not negative, and \<^verbatim>\<open>int\<close> is the floor.
\<close>

lemma fuse_finite:
  assumes "- 1 \<le> s" and "s \<le> 1"
  shows "fuse hs (Fin s) =
     Inr (if hs \<noteq> [] \<and> rnd 0.4 < s
          then (PhishingEmail, str_int \<lfloor>rnd (max s (rnd 0.8) * 100)\<rfloor> @ ''%'')
          else if hs \<noteq> [] \<or> rnd 0.6 < s
          then (SuspiciousEmail, str_int \<lfloor>rnd (max s (rnd 0.6) * 100)\<rfloor> @ ''%'')
          else (LegitimateEmail, str_int \<lfloor>rnd (rnd (1 - s) * 100)\<rfloor> @ ''%''))"
    and "\<exists>lab n. fuse hs (Fin s) = Inr (lab, str_int n @ ''%'') \<and> 0 \<le> n \<and> n \<le> 200 \<and>
           (0 \<le> s \<longrightarrow> n \<le> 100)"
proof -
  define m8 where "m8 = max s (rnd 0.8)"
  define m6 where "m6 = max s (rnd 0.6)"
  define n8 where "n8 = \<lfloor>rnd (m8 * 100)\<rfloor>"
  define n6 where "n6 = \<lfloor>rnd (m6 * 100)\<rfloor>"
  define n1 where "n1 = \<lfloor>rnd (rnd (1 - s) * 100)\<rfloor>"
  have d4: "lit 0.4 = Fin (rnd 0.4)" using lit_fin [of "0.4"] by simp
  have d6: "lit 0.6 = Fin (rnd 0.6)" and r6: "0 \<le> rnd 0.6" "rnd 0.6 \<le> 1"
    using lit_fin [of "0.6"] by simp_all
  have d8: "lit 0.8 = Fin (rnd 0.8)" and r8: "0 \<le> rnd 0.8" "rnd 0.8 \<le> 1"
    using lit_fin [of "0.8"] by simp_all
  from r8 assms have b8: "0 \<le> m8" "m8 \<le> of_int 1"
    by (simp_all add: m8_def max_def)
  from r6 assms have b6: "0 \<le> m6" "m6 \<le> of_int 1"
    by (simp_all add: m6_def max_def)
  from percent_times_100 [OF b8]
  have p8: "percent (fmul (Fin m8) (Fin 100)) = Inr (str_int n8 @ ''%'')"
    and q8: "0 \<le> n8" "n8 \<le> 100" by (simp_all add: n8_def)
  from percent_times_100 [OF b6]
  have p6: "percent (fmul (Fin m6) (Fin 100)) = Inr (str_int n6 @ ''%'')"
    and q6: "0 \<le> n6" "n6 \<le> 100" by (simp_all add: n6_def)
  from assms have x0: "0 \<le> 1 - s" and x2: "1 - s \<le> of_int 2" by simp_all
  from fround_range [OF x0 x2]
  have f: "fround (1 - s) = Fin (rnd (1 - s))" and ge: "0 \<le> rnd (1 - s)"
    and le2: "rnd (1 - s) \<le> of_int 2" by simp_all
  from percent_times_100 [OF ge le2]
  have p1: "percent (fmul (fsub (Fin 1) (Fin s)) (Fin 100)) = Inr (str_int n1 @ ''%'')"
    and q1: "0 \<le> n1" "n1 \<le> 200" by (simp_all add: n1_def f)
  have q1': "n1 \<le> 100" if "0 \<le> s"
  proof -
    from that have "1 - s \<le> of_int 1" by simp
    from fround_range [OF x0 this] have "rnd (1 - s) \<le> of_int 1" by simp
    from percent_times_100 [OF ge this] show ?thesis by (simp add: n1_def)
  qed
  have g4: "fgt (Fin s) (Fin (rnd 0.4)) = (rnd 0.4 < s)"
    and g6: "fgt (Fin s) (Fin (rnd 0.6)) = (rnd 0.6 < s)" by simp_all
  have eq: "fuse hs (Fin s) =
     Inr (if hs \<noteq> [] \<and> rnd 0.4 < s then (PhishingEmail, str_int n8 @ ''%'')
          else if hs \<noteq> [] \<or> rnd 0.6 < s then (SuspiciousEmail, str_int n6 @ ''%'')
          else (LegitimateEmail, str_int n1 @ ''%''))"
    unfolding fuse_def d4 d6 d8 fmax_Fin m8_def [symmetric] m6_def [symmetric] g4 g6 p8 p6 p1
    by simp
  then show "fuse hs (Fin s) =
     Inr (if hs \<noteq> [] \<and> rnd 0.4 < s
          then (PhishingEmail, str_int \<lfloor>rnd (max s (rnd 0.8) * 100)\<rfloor> @ ''%'')
          else if hs \<noteq> [] \<or> rnd 0.6 < s
          then (SuspiciousEmail, str_int \<lfloor>rnd (max s (rnd 0.6) * 100)\<rfloor> @ ''%'')
          else (LegitimateEmail, str_int \<lfloor>rnd (rnd (1 - s) * 100)\<rfloor> @ ''%''))"
    unfolding n8_def n6_def n1_def m8_def m6_def .
  consider (P) "hs \<noteq> [] \<and> rnd 0.4 < s"
    | (S) "\<not> (hs \<noteq> [] \<and> rnd 0.4 < s)" "hs \<noteq> [] \<or> rnd 0.6 < s"
    | (L) "\<not> (hs \<noteq> [] \<and> rnd 0.4 < s)" "\<not> (hs \<noteq> [] \<or> rnd 0.6 < s)"
    by blast
  then show "\<exists>lab n. fuse hs (Fin s) = Inr (lab, str_int n @ ''%'') \<and> 0 \<le> n \<and> n \<le> 200 \<and>
           (0 \<le> s \<longrightarrow> n \<le> 100)"
  proof cases
    case P
    with eq have "fuse hs (Fin s) = Inr (PhishingEmail, str_int n8 @ ''%'')" by simp
    with q8 show ?thesis by force
  next
    case S
    with eq have "fuse hs (Fin s) = Inr (SuspiciousEmail, str_int n6 @ ''%'')" by auto
    with q6 show ?thesis by force
  next
    case L
    with eq have "fuse hs (Fin s) = Inr (LegitimateEmail, str_int n1 @ ''%'')" by auto
    with q1 q1' show ?thesis by force
  qed
qed

lemma str_int_0: "str_int 0 = ''0''"
  by code_simp

lemma str_int_99: "str_int 99 = ''99''"
  by code_simp

text \<open>
  What the model does on a score that is no number: the conversion of the confidence
  raises, and \<open>analyze_email\<close> returns no verdict.
\<close>

lemma analyze_email_nan_score_raises:
  "analyze_email sample_extract default_SAFE_DOMAINS sample_encode (const_cos_sim NaN)
     (PyStr ''Photos are at http://localhost/a'') = Inl ValueError"
  by code_simp

section \<open>The whitelist short-circuit\<close>

text \<open>
  Claim C1. When the cleaned message has at least one URL and the registered domain of
  every URL is in the whitelist, \<open>analyze_email\<close> returns the label \<open>SafeEmail\<close>, the
  confidence \<^verbatim>\<open>99%\<close> and the explanation \<^verbatim>\<open>All domains are whitelisted: \<close> followed by
  the domains. The verdict is the same for every encoder and similarity function, and
  the keywords of the message have no part in it.
\<close>
theorem whitelist_short_circuit:
  assumes urls: "extract_urls (clean_text email) \<noteq> []"
    and safe: "\<forall>u \<in> set (extract_urls (clean_text email)).
                 get_registered_domain tld_extract u \<in> SAFE_DOMAINS"
  shows "analyze_email tld_extract SAFE_DOMAINS encode_cached cos_sim email =
           Inr \<lparr>label = SafeEmail, confidence = ''99%'',
                explanation = Text (''All domains are whitelisted: '' @
                  join '', '' (map (get_registered_domain tld_extract)
                                   (extract_urls (clean_text email))))\<rparr>"
proof -
  from urls have ne: "clean_text email \<noteq> []"
    using extract_urls_Nil by auto
  from safe have "\<forall>d \<in> set (map (get_registered_domain tld_extract)
                      (extract_urls (clean_text email))). d \<in> SAFE_DOMAINS"
    by simp
  from filter_all_in [OF this] urls ne show ?thesis
    by (simp add: analyze_email_def Let_def)
qed

theorem whitelist_short_circuit_witness:
  "analyze_email sample_extract default_SAFE_DOMAINS raising_encode raising_cos_sim
     (PyStr ''URGENT: verify your password at https://mail.gmail.com/inbox'') =
   Inr \<lparr>label = SafeEmail, confidence = ''99%'',
        explanation = Text ''All domains are whitelisted: gmail.com''\<rparr>"
proof -
  let ?m = "PyStr ''URGENT: verify your password at https://mail.gmail.com/inbox''"
  have u: "extract_urls (clean_text ?m) = [''https://mail.gmail.com/inbox'']"
    by code_simp
  have d: "get_registered_domain sample_extract ''https://mail.gmail.com/inbox'' = ''gmail.com''"
    by code_simp
  have s: "''gmail.com'' \<in> default_SAFE_DOMAINS"
    by (simp add: default_SAFE_DOMAINS_def)
  have urls: "extract_urls (clean_text ?m) \<noteq> []"
    unfolding u by simp
  have safe: "\<forall>u \<in> set (extract_urls (clean_text ?m)).
                get_registered_domain sample_extract u \<in> default_SAFE_DOMAINS"
    unfolding u using d s by simp
  show ?thesis
    using whitelist_short_circuit [OF urls safe, of raising_encode raising_cos_sim]
    unfolding u by (simp only: list.map d join.simps append.simps)
qed

section \<open>Messages without URLs\<close>

text \<open>
  Claim C2. When the cleaned message is not empty and has no URL, its encoding succeeds
  and the similarity of the encoding with itself is 1, \<open>analyze_email\<close> returns a verdict:
  \<open>PhishingEmail\<close> with confidence \<^verbatim>\<open>100%\<close> if some entry of the vocabulary occurs in the
  cleaned message, and \<open>SuspiciousEmail\<close> with confidence \<^verbatim>\<open>100%\<close> otherwise; the label
  is never one of the two legitimate labels.
\<close>

theorem no_url_self_similarity:
  assumes ne: "clean_text email \<noteq> []"
    and nu: "extract_urls (clean_text email) = []"
    and enc: "encode_cached (clean_text email) = Inr v"
    and self: "cos_sim v v = Inr (Fin 1)"
  shows "label_confidence (analyze_email tld_extract SAFE_DOMAINS encode_cached cos_sim email) =
           Inr (if \<exists>k \<in> set SUSPICIOUS_KEYWORDS. py_in k (clean_text email)
                then (PhishingEmail, ''100%'') else (SuspiciousEmail, ''100%'')) \<and>
         (\<exists>r. analyze_email tld_extract SAFE_DOMAINS encode_cached cos_sim email = Inr r \<and>
              label r \<noteq> LegitimateEmail \<and> label r \<noteq> SafeEmail)"
proof -
  let ?A = "analyze_email tld_extract SAFE_DOMAINS encode_cached cos_sim email"
  have sc: "cosine_score encode_cached cos_sim (clean_text email) (extract_urls (clean_text email))
              = Fin 1"
    by (simp add: cosine_score_def try_cosine_def nu enc self)
  from nu have "extract_urls (clean_text email) = [] \<or>
      (\<exists>u \<in> set (extract_urls (clean_text email)).
         get_registered_domain tld_extract u \<notin> SAFE_DOMAINS)" by simp
  from analyze_email_fusion [OF ne this, where enc = encode_cached and csim = cos_sim]
  have "label_confidence ?A = fuse (hits (clean_text email)) (Fin 1)"
    by (simp only: sc)
  then have eq: "label_confidence ?A =
      Inr (if \<exists>k \<in> set SUSPICIOUS_KEYWORDS. py_in k (clean_text email)
           then (PhishingEmail, ''100%'') else (SuspiciousEmail, ''100%''))"
    by (simp only: fuse_score_1 hits_nonempty_iff)
  then obtain r where r: "?A = Inr r"
    and "label r = PhishingEmail \<or> label r = SuspiciousEmail"
    by (cases ?A) (auto simp: label_confidence_def split: if_splits)
  then have "\<exists>r. ?A = Inr r \<and> label r \<noteq> LegitimateEmail \<and> label r \<noteq> SafeEmail"
    by auto
  with eq show ?thesis by (rule conjI)
qed

theorem no_url_self_similarity_witness:
  "label_confidence (analyze_email raising_extract default_SAFE_DOMAINS sample_encode
      (const_cos_sim (Fin 1)) (PyStr ''Password is Urgent'')) = Inr (PhishingEmail, ''100%'') \<and>
   label_confidence (analyze_email raising_extract default_SAFE_DOMAINS sample_encode
      (const_cos_sim (Fin 1)) (PyStr ''Hello there'')) = Inr (SuspiciousEmail, ''100%'')"
proof -
  let ?m1 = "PyStr ''Password is Urgent''"
  let ?m2 = "PyStr ''Hello there''"
  have ne1: "clean_text ?m1 \<noteq> []" by code_simp
  have ne2: "clean_text ?m2 \<noteq> []" by code_simp
  have nu1: "extract_urls (clean_text ?m1) = []" by code_simp
  have nu2: "extract_urls (clean_text ?m2) = []" by code_simp
  have enc: "sample_encode t = Inr (length t)" for t
    by (simp add: sample_encode_def)
  have self: "const_cos_sim (Fin 1) a a = Inr (Fin 1)" for a
    by (simp add: const_cos_sim_def)
  note w1 = no_url_self_similarity [OF ne1 nu1 enc self,
      where tld_extract = raising_extract and SAFE_DOMAINS = default_SAFE_DOMAINS]
  note w2 = no_url_self_similarity [OF ne2 nu2 enc self,
      where tld_extract = raising_extract and SAFE_DOMAINS = default_SAFE_DOMAINS]
  have a: "label_confidence (analyze_email raising_extract default_SAFE_DOMAINS sample_encode
      (const_cos_sim (Fin 1)) ?m1) = Inr (PhishingEmail, ''100%'')"
    by (rule trans [OF w1 [THEN conjunct1]]) code_simp
  have b: "label_confidence (analyze_email raising_extract default_SAFE_DOMAINS sample_encode
      (const_cos_sim (Fin 1)) ?m2) = Inr (SuspiciousEmail, ''100%'')"
    by (rule trans [OF w2 [THEN conjunct1]]) code_simp
  from a b show ?thesis by (rule conjI)
qed

section \<open>The registered domain\<close>

text \<open>
  Claim C3, as the specification words it, fails: when the suffix parser raises,
  \<open>get_registered_domain\<close> returns the empty string, not the lower-cased URL, so it
  returns the empty string on a URL that is not empty.
\<close>

theorem get_registered_domain_raise_counterexample:
  "get_registered_domain raising_extract ''http://Example.org'' = [] \<and>
   lower ''http://Example.org'' = ''http://example.org''"
  by code_simp

text \<open>
  Claim C3, amended. \<open>get_registered_domain\<close> returns a string on every outcome of the
  parser: the lower-cased \<^verbatim>\<open>domain.suffix\<close> when both parts are not empty, the
  lower-cased URL when one of them is empty, and the empty string when the parser raises.
  So the result is empty only for the empty URL or after the parser raised.
\<close>

theorem get_registered_domain_cases:
  "(tld_extract url = Inr e \<and> domain e \<noteq> [] \<and> suffix e \<noteq> [] \<longrightarrow>
      get_registered_domain tld_extract url = lower (domain e @ ''.'' @ suffix e)) \<and>
   (tld_extract url = Inr e \<and> (domain e = [] \<or> suffix e = []) \<longrightarrow>
      get_registered_domain tld_extract url = lower url) \<and>
   (tld_extract url = Inl x \<longrightarrow> get_registered_domain tld_extract url = []) \<and>
   (get_registered_domain tld_extract url = [] \<longrightarrow>
      url = [] \<or> (\<exists>x. tld_extract url = Inl x))"
proof (intro conjI impI)
  assume "tld_extract url = Inr e \<and> domain e \<noteq> [] \<and> suffix e \<noteq> []"
  then show "get_registered_domain tld_extract url = lower (domain e @ ''.'' @ suffix e)"
    by (simp add: get_registered_domain_def)
next
  assume "tld_extract url = Inr e \<and> (domain e = [] \<or> suffix e = [])"
  then show "get_registered_domain tld_extract url = lower url"
    by (auto simp: get_registered_domain_def)
next
  assume "tld_extract url = Inl x"
  then show "get_registered_domain tld_extract url = []"
    by (simp add: get_registered_domain_def)
next
  assume r: "get_registered_domain tld_extract url = []"
  show "url = [] \<or> (\<exists>x. tld_extract url = Inl x)"
  proof (cases "tld_extract url")
    case (Inl x)
    then show ?thesis by blast
  next
    case (Inr e')
    with r have "url = []"
      by (auto simp: get_registered_domain_def lower_def split: if_splits)
    then show ?thesis by blast
  qed
qed

theorem get_registered_domain_cases_witness:
  "get_registered_domain sample_extract ''https://mail.gmail.com/inbox'' = ''gmail.com'' \<and>
   get_registered_domain sample_extract ''http://localhost/a'' = ''http://localhost/a'' \<and>
   get_registered_domain raising_extract ''http://Example.org'' = [] \<and>
   (\<exists>x. raising_extract ''http://Example.org'' = Inl x)"
proof -
  let ?e1 = "\<lparr>subdomain = ''mail'', domain = ''gmail'', suffix = ''com''\<rparr>"
  let ?e2 = "\<lparr>subdomain = [], domain = ''localhost'', suffix = []\<rparr>"
  have h1: "sample_extract ''https://mail.gmail.com/inbox'' = Inr ?e1 \<and>
            domain ?e1 \<noteq> [] \<and> suffix ?e1 \<noteq> []"
    by (simp add: sample_extract_def)
  have h2: "sample_extract ''http://localhost/a'' = Inr ?e2 \<and>
            (domain ?e2 = [] \<or> suffix ?e2 = [])"
    by (simp add: sample_extract_def)
  have h3: "raising_extract ''http://Example.org'' = Inl Exception"
    by (simp add: raising_extract_def)
  have l1: "lower (domain ?e1 @ ''.'' @ suffix ?e1) = ''gmail.com''" by code_simp
  have l2: "lower ''http://localhost/a'' = ''http://localhost/a''" by code_simp
  from get_registered_domain_cases [of sample_extract "''https://mail.gmail.com/inbox''" ?e1] h1
  have a: "get_registered_domain sample_extract ''https://mail.gmail.com/inbox'' =
           lower (domain ?e1 @ ''.'' @ suffix ?e1)" by blast
  from get_registered_domain_cases [of sample_extract "''http://localhost/a''" ?e2] h2
  have b: "get_registered_domain sample_extract ''http://localhost/a'' = lower ''http://localhost/a''"
    by blast
  from get_registered_domain_cases [of raising_extract "''http://Example.org''" _ Exception] h3
  have c: "get_registered_domain raising_extract ''http://Example.org'' = []" by blast
  from get_registered_domain_cases [of raising_extract "''http://Example.org''"] c
  have d: "\<exists>x. raising_extract ''http://Example.org'' = Inl x" by blast
  from a b c d show ?thesis by (simp only: l1 l2)
qed

section \<open>Signal fusion\<close>

text \<open>
  Claim C4. When the cleaned message is not empty, the whitelist does not end the
  analysis (no URL, or a URL whose registered domain is not whitelisted) and the score
  \<open>s\<close> is a finite float between \<open>- 1\<close> and 1, \<open>analyze_email\<close> returns a verdict whose label
  and confidence are: \<open>PhishingEmail\<close> and the floor of \<open>max s 0.8 * 100\<close> when there are
  keyword hits and \<open>s > 0.4\<close>; else \<open>SuspiciousEmail\<close> and the floor of \<open>max s 0.6 * 100\<close>
  when there are keyword hits or \<open>s > 0.6\<close>; else \<open>LegitimateEmail\<close> and the floor of
  \<open>(1 - s) * 100\<close>; the confidence is the decimal numeral followed by \<^verbatim>\<open>%\<close>. The
  literals are the doubles \<open>rnd 0.4\<close>, \<open>rnd 0.6\<close>, \<open>rnd 0.8\<close>, the difference and the
  products are rounded to doubles by \<open>rnd\<close>, as the floats of the source are, and
  \<^verbatim>\<open>int\<close> agrees with the floor because its argument is not negative in any branch.
\<close>

theorem fusion_confidence:
  assumes "clean_text email \<noteq> []"
    and "extract_urls (clean_text email) = [] \<or>
         (\<exists>u \<in> set (extract_urls (clean_text email)).
            get_registered_domain tld_extract u \<notin> SAFE_DOMAINS)"
    and "cosine_score encode_cached cos_sim (clean_text email) (extract_urls (clean_text email))
           = Fin s"
    and "- 1 \<le> s" and "s \<le> 1"
    and "hs = hits (clean_text email)"
  shows "label_confidence (analyze_email tld_extract SAFE_DOMAINS encode_cached cos_sim email) =
     Inr (if hs \<noteq> [] \<and> rnd 0.4 < s
          then (PhishingEmail, str_int \<lfloor>rnd (max s (rnd 0.8) * 100)\<rfloor> @ ''%'')
          else if hs \<noteq> [] \<or> rnd 0.6 < s
          then (SuspiciousEmail, str_int \<lfloor>rnd (max s (rnd 0.6) * 100)\<rfloor> @ ''%'')
          else (LegitimateEmail, str_int \<lfloor>rnd (rnd (1 - s) * 100)\<rfloor> @ ''%''))"
proof -
  from analyze_email_fusion [OF assms(1,2), where enc = encode_cached and csim = cos_sim]
  have "label_confidence (analyze_email tld_extract SAFE_DOMAINS encode_cached cos_sim email) =
          fuse hs (Fin s)"
    by (simp only: assms(3,6))
  then show ?thesis
    by (simp only: fuse_finite(1) [OF assms(4,5)])
qed

text \<open>
  The theorem at four messages and scores: a phishing message at the score 1/2, a
  message without keywords at the double next to 0.9 and at \<open>1 / 2 ^ 60\<close>, where
  \<open>1 - s\<close> rounds to 1 and the confidence is \<^verbatim>\<open>100%\<close>, and the phishing message at the
  double 0.4, which is not above the threshold.
\<close>

theorem fusion_confidence_witness:
  "label_confidence (analyze_email sample_extract default_SAFE_DOMAINS sample_encode
      (const_cos_sim (Fin (1/2)))
      (PyStr ''Click http://evil-bank-login.xyz now to verify your account!'')) =
     Inr (PhishingEmail, ''80%'') \<and>
   label_confidence (analyze_email sample_extract default_SAFE_DOMAINS sample_encode
      (const_cos_sim (Fin (rnd 0.9))) (PyStr ''Photos are at http://localhost/a'')) =
     Inr (SuspiciousEmail, ''90%'') \<and>
   label_confidence (analyze_email sample_extract default_SAFE_DOMAINS sample_encode
      (const_cos_sim (Fin (1 / 2 ^ 60))) (PyStr ''Photos are at http://localhost/a'')) =
     Inr (LegitimateEmail, ''100%'') \<and>
   label_confidence (analyze_email sample_extract default_SAFE_DOMAINS sample_encode
      (const_cos_sim (Fin (rnd 0.4)))
      (PyStr ''Click http://evil-bank-login.xyz now to verify your account!'')) =
     Inr (SuspiciousEmail, ''60%'')"
proof -
  let ?m1 = "PyStr ''Click http://evil-bank-login.xyz now to verify your account!''"
  let ?m2 = "PyStr ''Photos are at http://localhost/a''"
  have ne1: "clean_text ?m1 \<noteq> []" by code_simp
  have ne2: "clean_text ?m2 \<noteq> []" by code_simp
  have f1: "extract_urls (clean_text ?m1) = [] \<or>
     (\<exists>u \<in> set (extract_urls (clean_text ?m1)).
        get_registered_domain sample_extract u \<notin> default_SAFE_DOMAINS)" by code_simp
  have f2: "extract_urls (clean_text ?m2) = [] \<or>
     (\<exists>u \<in> set (extract_urls (clean_text ?m2)).
        get_registered_domain sample_extract u \<notin> default_SAFE_DOMAINS)" by code_simp
  have r1: "- 1 \<le> (1/2::real)" "(1/2::real) \<le> 1" by simp_all
  have r2: "- 1 \<le> rnd 0.9" "rnd 0.9 \<le> 1" by code_simp+
  have r3: "- 1 \<le> (1 / 2 ^ 60 :: real)" "(1 / 2 ^ 60 :: real) \<le> 1" by simp_all
  have r4: "- 1 \<le> rnd 0.4" "rnd 0.4 \<le> 1" by code_simp+
  have a: "label_confidence (analyze_email sample_extract default_SAFE_DOMAINS sample_encode
      (const_cos_sim (Fin (1/2))) ?m1) = Inr (PhishingEmail, ''80%'')"
    by (rule trans [OF fusion_confidence [OF ne1 f1 cosine_score_const r1 refl]]) code_simp
  have b: "label_confidence (analyze_email sample_extract default_SAFE_DOMAINS sample_encode
      (const_cos_sim (Fin (rnd 0.9))) ?m2) = Inr (SuspiciousEmail, ''90%'')"
    by (rule trans [OF fusion_confidence [OF ne2 f2 cosine_score_const r2 refl]]) code_simp
  have c: "label_confidence (analyze_email sample_extract default_SAFE_DOMAINS sample_encode
      (const_cos_sim (Fin (1 / 2 ^ 60))) ?m2) = Inr (LegitimateEmail, ''100%'')"
    by (rule trans [OF fusion_confidence [OF ne2 f2 cosine_score_const r3 refl]]) code_simp
  have d: "label_confidence (analyze_email sample_extract default_SAFE_DOMAINS sample_encode
      (const_cos_sim (Fin (rnd 0.4))) ?m1) = Inr (SuspiciousEmail, ''60%'')"
    by (rule trans [OF fusion_confidence [OF ne1 f1 cosine_score_const r4 refl]]) code_simp
  from a b c d show ?thesis by (intro conjI)
qed

text \<open>
  Claim C5. The thresholds are strict: with keyword hits and a score that is exactly the
  float 0.4 the verdict is \<open>SuspiciousEmail\<close> (with \<^verbatim>\<open>60%\<close>), not \<open>PhishingEmail\<close>; without
  keyword hits and with a score that is exactly the float 0.6 the verdict is
  \<open>LegitimateEmail\<close> (with \<^verbatim>\<open>40%\<close>), not \<open>SuspiciousEmail\<close>.
\<close>

theorem strict_thresholds:
  assumes "clean_text email \<noteq> []"
    and "extract_urls (clean_text email) = [] \<or>
         (\<exists>u \<in> set (extract_urls (clean_text email)).
            get_registered_domain tld_extract u \<notin> SAFE_DOMAINS)"
    and "s = cosine_score encode_cached cos_sim (clean_text email) (extract_urls (clean_text email))"
  shows "(hits (clean_text email) \<noteq> [] \<and> s = lit 0.4 \<longrightarrow>
            label_confidence (analyze_email tld_extract SAFE_DOMAINS encode_cached cos_sim email) =
              Inr (SuspiciousEmail, ''60%'')) \<and>
         (hits (clean_text email) = [] \<and> s = lit 0.6 \<longrightarrow>
            label_confidence (analyze_email tld_extract SAFE_DOMAINS encode_cached cos_sim email) =
              Inr (LegitimateEmail, ''40%''))"
proof -
  let ?A = "analyze_email tld_extract SAFE_DOMAINS encode_cached cos_sim email"
  from analyze_email_fusion [OF assms(1,2), where enc = encode_cached and csim = cos_sim] assms(3)
  have l: "label_confidence ?A = fuse (hits (clean_text email)) s" by simp
  show ?thesis
  proof (intro conjI impI)
    assume a: "hits (clean_text email) \<noteq> [] \<and> s = lit 0.4"
    then have h: "hits (clean_text email) \<noteq> []" and s: "s = lit 0.4" by simp_all
    from l show "label_confidence ?A = Inr (SuspiciousEmail, ''60%'')"
      unfolding s by (simp only: fuse_at_lit04 [OF h])
  next
    assume a: "hits (clean_text email) = [] \<and> s = lit 0.6"
    then have h: "hits (clean_text email) = []" and s: "s = lit 0.6" by simp_all
    from l show "label_confidence ?A = Inr (LegitimateEmail, ''40%'')"
      unfolding s h by (simp only: fuse_at_lit06)
  qed
qed

theorem strict_thresholds_witness:
  "label_confidence (analyze_email sample_extract default_SAFE_DOMAINS sample_encode
      (const_cos_sim (lit 0.4))
      (PyStr ''Click http://evil-bank-login.xyz now to verify your account!'')) =
     Inr (SuspiciousEmail, ''60%'') \<and>
   label_confidence (analyze_email sample_extract default_SAFE_DOMAINS sample_encode
      (const_cos_sim (lit 0.6)) (PyStr ''Photos are at http://localhost/a'')) =
     Inr (LegitimateEmail, ''40%'')"
proof -
  let ?m1 = "PyStr ''Click http://evil-bank-login.xyz now to verify your account!''"
  let ?m2 = "PyStr ''Photos are at http://localhost/a''"
  have ne1: "clean_text ?m1 \<noteq> []" by code_simp
  have ne2: "clean_text ?m2 \<noteq> []" by code_simp
  have f1: "extract_urls (clean_text ?m1) = [] \<or>
     (\<exists>u \<in> set (extract_urls (clean_text ?m1)).
        get_registered_domain sample_extract u \<notin> default_SAFE_DOMAINS)" by code_simp
  have f2: "extract_urls (clean_text ?m2) = [] \<or>
     (\<exists>u \<in> set (extract_urls (clean_text ?m2)).
        get_registered_domain sample_extract u \<notin> default_SAFE_DOMAINS)" by code_simp
  have h1: "hits (clean_text ?m1) \<noteq> []" by code_simp
  have h2: "hits (clean_text ?m2) = []" by code_simp
  from strict_thresholds [OF ne1 f1 cosine_score_const [symmetric]] h1
  have a: "label_confidence (analyze_email sample_extract default_SAFE_DOMAINS sample_encode
      (const_cos_sim (lit 0.4)) ?m1) = Inr (SuspiciousEmail, ''60%'')" by blast
  from strict_thresholds [OF ne2 f2 cosine_score_const [symmetric]] h2
  have b: "label_confidence (analyze_email sample_extract default_SAFE_DOMAINS sample_encode
      (const_cos_sim (lit 0.6)) ?m2) = Inr (LegitimateEmail, ''40%'')" by blast
  from a b show ?thesis by (rule conjI)
qed

section \<open>Empty input\<close>

text \<open>
  Claim C6, as the specification words it, fails on the explanation: the source puts
  \<^verbatim>\<open>No text provided.\<close> into the label and only \<^verbatim>\<open>Please paste the email content.\<close>
  into the explanation.
\<close>

theorem empty_input_explanation_counterexample:
  "analyze_email raising_extract default_SAFE_DOMAINS raising_encode raising_cos_sim (PyStr []) =
     Inr \<lparr>label = NoTextProvided, confidence = ''0%'',
          explanation = Text ''Please paste the email content.''\<rparr> \<and>
   Text ''Please paste the email content.'' \<noteq>
     Text ''No text provided. Please paste the email content.''"
  by code_simp

text \<open>
  Claim C6, amended. On the empty string and on every value that is no string,
  \<open>analyze_email\<close> returns (it does not raise) the label \<open>NoTextProvided\<close>, the confidence
  \<^verbatim>\<open>0%\<close> and the explanation \<^verbatim>\<open>Please paste the email content.\<close>, whatever the suffix
  parser, the whitelist, the encoder and the similarity function are or do: none of them
  is consulted.
\<close>

theorem empty_input_verdict:
  "analyze_email tld_extract SAFE_DOMAINS encode_cached cos_sim (PyStr []) =
     Inr \<lparr>label = NoTextProvided, confidence = ''0%'',
          explanation = Text ''Please paste the email content.''\<rparr> \<and>
   analyze_email tld_extract SAFE_DOMAINS encode_cached cos_sim PyNone =
     Inr \<lparr>label = NoTextProvided, confidence = ''0%'',
          explanation = Text ''Please paste the email content.''\<rparr> \<and>
   analyze_email tld_extract SAFE_DOMAINS encode_cached cos_sim (PyInt i) =
     Inr \<lparr>label = NoTextProvided, confidence = ''0%'',
          explanation = Text ''Please paste the email content.''\<rparr>"
proof -
  have "clean_text (PyStr []) = []" by (simp add: strip_def lower_def)
  moreover have "clean_text PyNone = []" by simp
  moreover have "clean_text (PyInt i) = []" by simp
  ultimately show ?thesis by (simp only: analyze_email_empty)
qed

section \<open>Failure of the embedding\<close>

text \<open>
  Claim C7. When the \<^verbatim>\<open>try\<close> block raises (the encoding of the message, the encoding
  of the other text or the similarity), the score is 0, no exception leaves
  \<open>analyze_email\<close> and it returns a verdict: the empty-input verdict, the whitelist
  verdict, or from the fusion \<open>SuspiciousEmail\<close> with \<^verbatim>\<open>60%\<close> when a keyword occurs and
  \<open>LegitimateEmail\<close> with \<^verbatim>\<open>100%\<close> otherwise.
\<close>

theorem embedding_failure_fallback:
  assumes fail: "try_cosine encode_cached cos_sim (clean_text email)
                   (extract_urls (clean_text email)) = Inl e"
  shows "cosine_score encode_cached cos_sim (clean_text email) (extract_urls (clean_text email))
           = Fin 0 \<and>
         label_confidence (analyze_email tld_extract SAFE_DOMAINS encode_cached cos_sim email) =
           Inr (if clean_text email = [] then (NoTextProvided, ''0%'')
                else if extract_urls (clean_text email) \<noteq> [] \<and>
                        list_all (\<lambda>u. get_registered_domain tld_extract u \<in> SAFE_DOMAINS)
                                 (extract_urls (clean_text email))
                then (SafeEmail, ''99%'')
                else if list_ex (\<lambda>k. py_in k (clean_text email)) SUSPICIOUS_KEYWORDS
                then (SuspiciousEmail, ''60%'')
                else (LegitimateEmail, ''100%''))"
proof -
  let ?A = "analyze_email tld_extract SAFE_DOMAINS encode_cached cos_sim email"
  let ?t = "clean_text email"
  let ?urls = "extract_urls ?t"
  let ?sc = "?urls \<noteq> [] \<and> list_all (\<lambda>u. get_registered_domain tld_extract u \<in> SAFE_DOMAINS) ?urls"
  from fail have z: "cosine_score encode_cached cos_sim ?t ?urls = Fin 0"
    by (simp add: cosine_score_def)
  consider (E) "?t = []" | (W) "?t \<noteq> []" "?sc" | (F) "?t \<noteq> []" "\<not> ?sc" by blast
  then have "label_confidence ?A =
           Inr (if ?t = [] then (NoTextProvided, ''0%'')
                else if ?sc then (SafeEmail, ''99%'')
                else if list_ex (\<lambda>k. py_in k ?t) SUSPICIOUS_KEYWORDS
                then (SuspiciousEmail, ''60%'')
                else (LegitimateEmail, ''100%''))"
  proof cases
    case E
    then show ?thesis by (simp add: analyze_email_empty label_confidence_def)
  next
    case W
    then have "?urls \<noteq> []" and "\<forall>u \<in> set ?urls. get_registered_domain tld_extract u \<in> SAFE_DOMAINS"
      by (auto simp: list_all_iff)
    from analyze_email_whitelisted [OF this] W show ?thesis by simp
  next
    case F
    then have "?urls = [] \<or> (\<exists>u \<in> set ?urls. get_registered_domain tld_extract u \<notin> SAFE_DOMAINS)"
      by (auto simp: list_all_iff)
    from analyze_email_fusion [OF F(1) this, where enc = encode_cached and csim = cos_sim]
    have "label_confidence ?A = fuse (hits ?t) (Fin 0)" by (simp only: z)
    with F show ?thesis
      by (simp only: fuse_score_0 hits_nonempty_iff list_ex_iff if_False)
  qed
  with z show ?thesis by (rule conjI)
qed

theorem embedding_failure_fallback_witness:
  "cosine_score raising_encode raising_cos_sim (clean_text (PyStr ''Please verify now''))
     (extract_urls (clean_text (PyStr ''Please verify now''))) = Fin 0 \<and>
   label_confidence (analyze_email raising_extract default_SAFE_DOMAINS raising_encode
      raising_cos_sim (PyStr ''Please verify now'')) = Inr (SuspiciousEmail, ''60%'') \<and>
   label_confidence (analyze_email sample_extract default_SAFE_DOMAINS sample_encode
      raising_cos_sim (PyStr ''Photos are at http://localhost/a'')) =
     Inr (LegitimateEmail, ''100%'')"
proof -
  note w1 = embedding_failure_fallback [OF try_cosine_raising,
      where tld_extract = raising_extract and SAFE_DOMAINS = default_SAFE_DOMAINS
        and email = "PyStr ''Please verify now''" and cos_sim = raising_cos_sim]
  note w2 = embedding_failure_fallback [OF try_cosine_raising_cos_sim,
      where tld_extract = sample_extract and SAFE_DOMAINS = default_SAFE_DOMAINS
        and email = "PyStr ''Photos are at http://localhost/a''"]
  have a: "label_confidence (analyze_email raising_extract default_SAFE_DOMAINS raising_encode
      raising_cos_sim (PyStr ''Please verify now'')) = Inr (SuspiciousEmail, ''60%'')"
    by (rule trans [OF w1 [THEN conjunct2]]) code_simp
  have b: "label_confidence (analyze_email sample_extract default_SAFE_DOMAINS sample_encode
      raising_cos_sim (PyStr ''Photos are at http://localhost/a'')) =
     Inr (LegitimateEmail, ''100%'')"
    by (rule trans [OF w2 [THEN conjunct2]]) code_simp
  from w1 [THEN conjunct1] a b show ?thesis by (intro conjI)
qed

section \<open>The range of the confidence\<close>

text \<open>
  Claim C8, as the specification words it, fails: a score of \<open>- 1/2\<close>, which a cosine
  can be, on a message without keywords gives the confidence \<^verbatim>\<open>150%\<close>.
\<close>

theorem confidence_over_100_counterexample:
  "label_confidence (analyze_email sample_extract default_SAFE_DOMAINS sample_encode
      (const_cos_sim (Fin (- 1/2))) (PyStr ''Photos are at http://localhost/a'')) =
     Inr (LegitimateEmail, ''150%'')"
  by code_simp

text \<open>
  Claim C8, amended. For every input whose score \<open>s\<close> is a finite float between \<open>- 1\<close> and
  1, \<open>analyze_email\<close> returns a verdict whose confidence is the numeral of an integer
  between 0 and 200, followed by \<^verbatim>\<open>%\<close>; the integer is at most 100 when \<open>s\<close> is not
  negative.
\<close>

theorem confidence_percentage:
  assumes "cosine_score encode_cached cos_sim (clean_text email) (extract_urls (clean_text email))
             = Fin s"
    and "- 1 \<le> s" and "s \<le> 1"
  shows "\<exists>v n. analyze_email tld_extract SAFE_DOMAINS encode_cached cos_sim email = Inr v \<and>
               confidence v = str_int n @ ''%'' \<and> 0 \<le> n \<and> n \<le> 200 \<and>
               (0 \<le> s \<longrightarrow> n \<le> 100)"
proof -
  let ?A = "analyze_email tld_extract SAFE_DOMAINS encode_cached cos_sim email"
  let ?t = "clean_text email"
  let ?urls = "extract_urls ?t"
  let ?sc = "?urls \<noteq> [] \<and> (\<forall>u \<in> set ?urls. get_registered_domain tld_extract u \<in> SAFE_DOMAINS)"
  have conf: "\<exists>v. ?A = Inr v \<and> confidence v = c" if "label_confidence ?A = Inr (lab, c)" for lab c
    using that by (cases ?A) (auto simp: label_confidence_def)
  consider (E) "?t = []" | (W) "?t \<noteq> []" "?sc" | (F) "?t \<noteq> []" "\<not> ?sc" by blast
  then show ?thesis
  proof cases
    case E
    then have "label_confidence ?A = Inr (NoTextProvided, str_int 0 @ ''%'')"
      by (simp add: analyze_email_empty label_confidence_def str_int_0)
    from conf [OF this] show ?thesis by force
  next
    case W
    then have "?urls \<noteq> []" and "\<forall>u \<in> set ?urls. get_registered_domain tld_extract u \<in> SAFE_DOMAINS"
      by auto
    from analyze_email_whitelisted [OF this, where enc = encode_cached and csim = cos_sim]
    have "label_confidence ?A = Inr (SafeEmail, str_int 99 @ ''%'')"
      by (simp add: str_int_99)
    from conf [OF this] show ?thesis by force
  next
    case F
    then have "?urls = [] \<or> (\<exists>u \<in> set ?urls. get_registered_domain tld_extract u \<notin> SAFE_DOMAINS)"
      by auto
    from analyze_email_fusion [OF F(1) this, where enc = encode_cached and csim = cos_sim]
    have l: "label_confidence ?A = fuse (hits ?t) (Fin s)" by (simp only: assms(1))
    from fuse_finite(2) [OF assms(2,3), of "hits ?t"] obtain lab n where
      "fuse (hits ?t) (Fin s) = Inr (lab, str_int n @ ''%'')" and
      n: "0 \<le> n" "n \<le> 200" "0 \<le> s \<longrightarrow> n \<le> 100" by blast
    with l have "label_confidence ?A = Inr (lab, str_int n @ ''%'')" by simp
    from conf [OF this] n show ?thesis by blast
  qed
qed

theorem confidence_percentage_witness:
  "(\<exists>v n. analyze_email sample_extract default_SAFE_DOMAINS sample_encode
           (const_cos_sim (Fin (1/4))) (PyStr ''Photos are at http://localhost/a'') = Inr v \<and>
        confidence v = str_int n @ ''%'' \<and> 0 \<le> n \<and> n \<le> 100) \<and>
   (\<exists>v n. analyze_email sample_extract default_SAFE_DOMAINS sample_encode
           (const_cos_sim (Fin (- 1/2))) (PyStr ''Photos are at http://localhost/a'') = Inr v \<and>
        confidence v = str_int n @ ''%'' \<and> 0 \<le> n \<and> n \<le> 200)"
proof -
  have r1: "- 1 \<le> (1/4::real)" "(1/4::real) \<le> 1" "0 \<le> (1/4::real)" by simp_all
  have r2: "- 1 \<le> (- 1/2::real)" "(- 1/2::real) \<le> 1" by simp_all
  from confidence_percentage [OF cosine_score_const r1(1,2),
      where tld_extract = sample_extract and SAFE_DOMAINS = default_SAFE_DOMAINS
        and email = "PyStr ''Photos are at http://localhost/a''"] r1(3)
  have a: "\<exists>v n. analyze_email sample_extract default_SAFE_DOMAINS sample_encode
           (const_cos_sim (Fin (1/4))) (PyStr ''Photos are at http://localhost/a'') = Inr v \<and>
        confidence v = str_int n @ ''%'' \<and> 0 \<le> n \<and> n \<le> 100" by blast
  from confidence_percentage [OF cosine_score_const r2,
      where tld_extract = sample_extract and SAFE_DOMAINS = default_SAFE_DOMAINS
        and email = "PyStr ''Photos are at http://localhost/a''"]
  have b: "\<exists>v n. analyze_email sample_extract default_SAFE_DOMAINS sample_encode
           (const_cos_sim (Fin (- 1/2))) (PyStr ''Photos are at http://localhost/a'') = Inr v \<and>
        confidence v = str_int n @ ''%'' \<and> 0 \<le> n \<and> n \<le> 200" by blast
  from a b show ?thesis by (rule conjI)
qed

section \<open>The keyword matcher\<close>

text \<open>
  Claim C9. The keyword hits of a text are the entries of the vocabulary that occur in
  the text as a contiguous run, in the order of the vocabulary; the vocabulary has 20
  entries, all different. A text where \<^verbatim>\<open>password\<close> stands before \<^verbatim>\<open>urgent\<close> has
  \<^verbatim>\<open>urgent\<close> first in its hits.
\<close>

theorem hits_vocabulary_order:
  "hits t = filter (\<lambda>k. \<exists>p s. t = p @ k @ s) SUSPICIOUS_KEYWORDS \<and>
   length SUSPICIOUS_KEYWORDS = 20 \<and> distinct SUSPICIOUS_KEYWORDS \<and>
   hits ''send the password, it is urgent'' = [''urgent'', ''password'']"
proof -
  have a: "hits t = filter (\<lambda>k. \<exists>p s. t = p @ k @ s) SUSPICIOUS_KEYWORDS"
    by (simp only: hits_def py_in_iff)
  have b: "length SUSPICIOUS_KEYWORDS = 20"
    by (simp add: SUSPICIOUS_KEYWORDS_def)
  have c: "distinct SUSPICIOUS_KEYWORDS"
    by (simp add: SUSPICIOUS_KEYWORDS_def)
  have d: "hits ''send the password, it is urgent'' = [''urgent'', ''password'']"
    by code_simp
  from a b c d show ?thesis by blast
qed

section \<open>The normalizer\<close>

text \<open>
  Claim C10 holds of the specification's normalizer and fails on the source. The pattern
  \<^verbatim>\<open><.*?>\<close> is applied without \<^verbatim>\<open>re.DOTALL\<close>, so its dot matches no line feed and a tag
  that is broken over two lines is no match: on the text \<^verbatim>\<open><a\<close>, line feed,
  \<^verbatim>\<open>href=x>hi</a>\<close> the source removes only the closing tag and then the two brackets and
  the equals sign, and the words of the opening tag stay in the cleaned text, where the
  normalizer of the claim returns \<^verbatim>\<open>hi\<close>.
\<close>

theorem clean_text_tag_over_lines:
  "clean_text (PyStr (''<a'' @ [CHR 0x0A] @ ''href=x>hi</a>'')) =
     ''a'' @ [CHR 0x0A] @ ''hrefxhi'' \<and>
   normalize_spec (PyStr (''<a'' @ [CHR 0x0A] @ ''href=x>hi</a>'')) = ''hi''"
  by code_simp

end
